theory Spec2Isabelle
  imports Complex_Main "HOL-Library.FSet" "HOL-Library.AList"
begin

section \<open>PageRank: the transition model and the two estimators\<close>

text \<open>
  The embedding follows \<open>src/pagerank.py\<close>.

  \<^item> A page is an opaque hashable value: a type variable \<open>'p\<close>.
  \<^item> A Python \<open>set\<close> of pages is a finite set, \<open>'p fset\<close>; \<open>len\<close> is \<open>fcard\<close>.
  \<^item> A Python \<open>dict\<close> keeps its keys in insertion order, and the loops of the program
    run over the keys in that order: a dict is an association list. A dict has no
    duplicate key, which is the predicate \<open>py_dict\<close> below. Storing under a key is
    \<open>AList.update\<close>: an existing key keeps its position, a new one goes last.
  \<^item> A Python float is the real number it denotes. The arithmetic of
    \<open>transition_model\<close> and \<open>iterate_pagerank\<close> is read as exact: what the theorems say
    about their sums, comparisons and convergence is said of exact arithmetic, and no
    theorem below rests on a difference that rounding could remove. The quotient
    \<open>count / n\<close> of \<open>sample_pagerank\<close> is rounded to the nearest double, as Python
    computes it.
  \<^item> Every exception the program can raise is a value of \<open>py_error\<close>, and a
    function that can raise returns \<open>py_error + 'a\<close>.
\<close>

datatype py_error = KeyError | IndexError | ZeroDivisionError | ValueError | OverflowError

type_synonym 'p corpus = "('p \<times> 'p fset) list"

type_synonym 'p ranks = "('p \<times> real) list"

definition py_dict :: "('k \<times> 'v) list \<Rightarrow> bool" where
  "py_dict d = distinct (map fst d)"

definition keys :: "('k \<times> 'v) list \<Rightarrow> 'k list" where
  "keys d = map fst d"

definition dict_values :: "('k \<times> 'v) list \<Rightarrow> 'v list" where
  "dict_values d = map snd d"

text \<open>
  The Link Graph invariant of the data model: every link target is a key of the graph.
\<close>

definition links_closed :: "'p corpus \<Rightarrow> bool" where
  "links_closed corpus = list_all (\<lambda>(page, links). links |\<subseteq>| fset_of_list (keys corpus)) corpus"

subsection \<open>\<open>transition_model\<close>\<close>

text \<open>
  \<open>corpus[page]\<close> raises \<open>KeyError\<close> for a page that is not a key. Both branches fill
  \<open>trans_model\<close> in a loop over the keys of the corpus. No division is by zero: the
  loop body of the first branch runs only for a non-empty corpus, and in the second
  branch \<open>corpus[page]\<close> is non-empty and \<open>page\<close> is a key.
\<close>

definition transition_model :: "'p corpus \<Rightarrow> 'p \<Rightarrow> real \<Rightarrow> py_error + 'p ranks" where
  "transition_model corpus page damping_factor =
     (case map_of corpus page of
        None \<Rightarrow> Inl KeyError
      | Some links \<Rightarrow>
          if fcard links = 0 then
            Inr (foldl (\<lambda>trans_model local_page.
                         AList.update local_page (1 / real (length corpus)) trans_model)
                       [] (keys corpus))
          else
            let prob_per_link = damping_factor / real (fcard links);
                prob_per_page = (1 - damping_factor) / real (length corpus)
            in Inr (foldl (\<lambda>trans_model local_page.
                         if local_page |\<in>| links
                         then AList.update local_page (prob_per_page + prob_per_link) trans_model
                         else AList.update local_page prob_per_page trans_model)
                       [] (keys corpus)))"

subsection \<open>The random source\<close>

text \<open>
  \<open>sample_pagerank\<close> draws from Python's process-wide generator. The model takes the
  generator's outputs as a parameter: the natural number behind the one call of
  \<open>random.choice\<close>, and the value in \<open>[0, 1)\<close> that the \<open>i\<close>-th call of
  \<open>random.choices\<close> gets from \<open>random()\<close>.
\<close>

record random_source =
  rand_index :: nat
  rand_unit :: "nat \<Rightarrow> real"

text \<open>
  \<open>random.choice(seq)\<close> raises \<open>IndexError\<close> on an empty sequence and returns
  \<open>seq[randbelow(len(seq))]\<close> otherwise; \<open>randbelow(n)\<close> is some index below \<open>n\<close>.
\<close>

definition choice :: "'a list \<Rightarrow> nat \<Rightarrow> py_error + 'a" where
  "choice seq r = (if length seq = 0 then Inl IndexError else Inr (seq ! (r mod length seq)))"

text \<open>\<open>itertools.accumulate\<close>: the running totals of the weights.\<close>

fun accumulate_from :: "real \<Rightarrow> real list \<Rightarrow> real list" where
  "accumulate_from tot [] = []"
| "accumulate_from tot (w # ws) = (tot + w) # accumulate_from (tot + w) ws"

definition accumulate :: "real list \<Rightarrow> real list" where
  "accumulate ws = (case ws of [] \<Rightarrow> [] | w # ws' \<Rightarrow> w # accumulate_from w ws')"

text \<open>\<open>bisect.bisect_right(a, x, lo, hi)\<close>: the binary search of the standard library.\<close>

function bisect_right :: "real list \<Rightarrow> real \<Rightarrow> nat \<Rightarrow> nat \<Rightarrow> nat" where
  "bisect_right a x lo hi =
     (if lo < hi then
        (let mid = (lo + hi) div 2
         in if x < a ! mid then bisect_right a x lo mid else bisect_right a x (mid + 1) hi)
      else lo)"
  by pat_completeness auto
termination
  by (relation "measure (\<lambda>(a, x, lo, hi). hi - lo)") auto

declare bisect_right.simps [simp del]

text \<open>
  \<open>random.choices(population, weights=weights, k=1)[0]\<close> as CPython computes it:
  the cumulative weights, \<open>ValueError\<close> when their number differs from the population's
  or when their total is not positive, and the element at the index that the binary
  search finds for \<open>random() * total\<close> among the first \<open>n - 1\<close> cumulative weights.
  \<open>cum_weights[-1]\<close> raises \<open>IndexError\<close> on an empty list.
\<close>

definition choices :: "'a list \<Rightarrow> real list \<Rightarrow> real \<Rightarrow> py_error + 'a" where
  "choices population weights u =
     (let n = length population;
          cum_weights = accumulate weights
      in if length cum_weights \<noteq> n then Inl ValueError
         else if cum_weights = [] then Inl IndexError
         else let tot = last cum_weights
              in if tot \<le> 0 then Inl ValueError
                 else Inr (population ! bisect_right cum_weights (u * tot) 0 (n - 1)))"

subsection \<open>\<open>sample_pagerank\<close>\<close>

text \<open>
  The body of \<open>for _ in range(n)\<close>, run \<open>k\<close> more times; \<open>i\<close> counts the draws made so
  far. \<open>pagerank_dict[next_page] += 1\<close> raises \<open>KeyError\<close> for a missing key.
\<close>

fun sample_loop ::
  "'p corpus \<Rightarrow> real \<Rightarrow> (nat \<Rightarrow> real) \<Rightarrow> nat \<Rightarrow> nat \<Rightarrow> 'p \<Rightarrow> ('p \<times> int) list
   \<Rightarrow> py_error + ('p \<times> int) list" where
  "sample_loop corpus damping_factor rnd 0 i initial_page pagerank_dict = Inr pagerank_dict"
| "sample_loop corpus damping_factor rnd (Suc k) i initial_page pagerank_dict =
     (case transition_model corpus initial_page damping_factor of
        Inl e \<Rightarrow> Inl e
      | Inr model \<Rightarrow>
          (case choices (keys model) (dict_values model) (rnd i) of
             Inl e \<Rightarrow> Inl e
           | Inr next_page \<Rightarrow>
               (case map_of pagerank_dict next_page of
                  None \<Rightarrow> Inl KeyError
                | Some c \<Rightarrow>
                    sample_loop corpus damping_factor rnd k (Suc i) next_page
                      (AList.update next_page (c + 1) pagerank_dict))))"

text \<open>
  \<open>a / b\<close> on two Python integers is true division: \<open>ZeroDivisionError\<close> for a zero
  divisor, otherwise the exact quotient rounded to the nearest IEEE double, a tie going
  to the even significand, and \<open>OverflowError\<close> when that is beyond the range of doubles.

  For \<open>x > 0\<close>, \<open>ulp x\<close> is the distance between neighbouring doubles at \<open>x\<close>:
  \<open>2 ^ (e - 52)\<close> where \<open>2 ^ e \<le> x < 2 ^ (e + 1)\<close>, and \<open>2 ^ - 1074\<close> below
  \<open>2 ^ - 1022\<close>. The exponent is found by halving or doubling \<open>x\<close>, at most as often
  as the exponent range of doubles allows. A double is modelled by the real number it
  denotes, so the zero that Python prints as \<open>-0.0\<close> is \<open>0\<close>.
\<close>

definition round_half_even :: "real \<Rightarrow> int" where
  "round_half_even m =
     (let f = \<lfloor>m\<rfloor>; d = m - of_int f
      in if d < 1 / 2 then f else if 1 / 2 < d then f + 1 else if even f then f else f + 1)"

fun doublings :: "nat \<Rightarrow> real \<Rightarrow> nat" where
  "doublings 0 x = 0"
| "doublings (Suc fuel) x = (if 1 \<le> x then 0 else Suc (doublings fuel (2 * x)))"

fun halvings :: "nat \<Rightarrow> real \<Rightarrow> nat" where
  "halvings 0 x = 0"
| "halvings (Suc fuel) x = (if x < 2 then 0 else Suc (halvings fuel (x / 2)))"

definition ulp :: "real \<Rightarrow> real" where
  "ulp x = (if 1 \<le> x then 2 ^ halvings 1024 x / 2 ^ 52 else 1 / 2 ^ (doublings 1022 x + 52))"

definition double_round :: "real \<Rightarrow> real" where
  "double_round x =
     (if x = 0 then 0
      else sgn x * (of_int (round_half_even (\<bar>x\<bar> / ulp \<bar>x\<bar>)) * ulp \<bar>x\<bar>))"

definition true_div :: "int \<Rightarrow> int \<Rightarrow> py_error + real" where
  "true_div a b =
     (if b = 0 then Inl ZeroDivisionError
      else let y = double_round (real_of_int a / real_of_int b)
           in if 2 ^ 1024 \<le> \<bar>y\<bar> then Inl OverflowError else Inr y)"

text \<open>
  \<open>for page in pagerank_dict: pagerank_dict[page] /= n\<close>: true division of an integer
  count by the integer \<open>n\<close>, which raises \<open>ZeroDivisionError\<close> at the first page when
  \<open>n\<close> is zero.
\<close>

fun divide_counts :: "('p \<times> int) list \<Rightarrow> int \<Rightarrow> py_error + 'p ranks" where
  "divide_counts [] n = Inr []"
| "divide_counts ((page, c) # rest) n =
     (case true_div c n of
        Inl e \<Rightarrow> Inl e
      | Inr v \<Rightarrow>
          (case divide_counts rest n of
             Inl e \<Rightarrow> Inl e
           | Inr rest' \<Rightarrow> Inr ((page, v) # rest')))"

text \<open>\<open>range(n)\<close> is empty for \<open>n \<le> 0\<close>: the loop body runs \<open>nat n\<close> times.\<close>

definition sample_pagerank ::
  "'p corpus \<Rightarrow> real \<Rightarrow> int \<Rightarrow> random_source \<Rightarrow> py_error + 'p ranks" where
  "sample_pagerank corpus damping_factor n rng =
     (let pagerank_dict = foldl (\<lambda>d page. AList.update page 0 d) [] (keys corpus)
      in case choice (keys corpus) (rand_index rng) of
           Inl e \<Rightarrow> Inl e
         | Inr initial_page \<Rightarrow>
             (case sample_loop corpus damping_factor (rand_unit rng) (nat n) 0
                     initial_page pagerank_dict of
                Inl e \<Rightarrow> Inl e
              | Inr counts \<Rightarrow> divide_counts counts n))"

subsection \<open>\<open>iterate_pagerank\<close>\<close>

text \<open>
  The loop over \<open>corpus.items()\<close> stores into the dict it runs over, under the key it
  is at: the argument itself is changed, and the caller sees it. The model returns the
  corpus as the call leaves it, next to the result.
\<close>

definition normalize_sinks :: "'p corpus \<Rightarrow> 'p corpus" where
  "normalize_sinks corpus =
     foldl (\<lambda>c (page, links).
              if links = {||} then AList.update page (fset_of_list (keys c)) c else c)
           corpus corpus"

text \<open>
  \<open>sum(pagerank_dict[link] / len(corpus[link]) for link in corpus if page in corpus[link])\<close>,
  over the keys \<open>link\<close> still to visit. The filter is tested before the division, so
  the divisor is never zero. Addition of reals is exact, so the order of the additions
  is immaterial.
\<close>

fun rank_sum :: "'p corpus \<Rightarrow> 'p ranks \<Rightarrow> 'p \<Rightarrow> 'p list \<Rightarrow> py_error + real" where
  "rank_sum corpus pagerank_dict page [] = Inr 0"
| "rank_sum corpus pagerank_dict page (link # rest) =
     (case map_of corpus link of
        None \<Rightarrow> Inl KeyError
      | Some links \<Rightarrow>
          if page |\<in>| links then
            (case map_of pagerank_dict link of
               None \<Rightarrow> Inl KeyError
             | Some r \<Rightarrow>
                 (case rank_sum corpus pagerank_dict page rest of
                    Inl e \<Rightarrow> Inl e
                  | Inr s \<Rightarrow> Inr (r / real (fcard links) + s)))
          else rank_sum corpus pagerank_dict page rest)"

text \<open>One pass of \<open>for page in corpus\<close>, filling \<open>new_ranks\<close>.\<close>

fun new_ranks_loop ::
  "'p corpus \<Rightarrow> real \<Rightarrow> real \<Rightarrow> 'p ranks \<Rightarrow> 'p list \<Rightarrow> 'p ranks \<Rightarrow> py_error + 'p ranks" where
  "new_ranks_loop corpus chose_page_at_random damping_factor pagerank_dict [] new_ranks =
     Inr new_ranks"
| "new_ranks_loop corpus chose_page_at_random damping_factor pagerank_dict (page # rest) new_ranks =
     (case rank_sum corpus pagerank_dict page (keys corpus) of
        Inl e \<Rightarrow> Inl e
      | Inr rank_sum' \<Rightarrow>
          new_ranks_loop corpus chose_page_at_random damping_factor pagerank_dict rest
            (AList.update page (chose_page_at_random + damping_factor * rank_sum') new_ranks))"

text \<open>
  \<open>all(abs(new_ranks[page] - pagerank_dict[page]) < 0.001 for page in pagerank_dict)\<close>,
  which stops at the first page that fails the test.
\<close>

fun all_close :: "'p ranks \<Rightarrow> 'p ranks \<Rightarrow> 'p list \<Rightarrow> py_error + bool" where
  "all_close new_ranks pagerank_dict [] = Inr True"
| "all_close new_ranks pagerank_dict (page # rest) =
     (case map_of new_ranks page of
        None \<Rightarrow> Inl KeyError
      | Some a \<Rightarrow>
          (case map_of pagerank_dict page of
             None \<Rightarrow> Inl KeyError
           | Some b \<Rightarrow>
               if \<bar>a - b\<bar> < 1 / 1000 then all_close new_ranks pagerank_dict rest
               else Inr False))"

text \<open>
  \<open>while True\<close>: the loop may run forever, so its result is an option and \<open>None\<close> is
  "does not return". On convergence the loop breaks before the assignment
  \<open>pagerank_dict = new_ranks\<close>, and \<open>pagerank_dict\<close> is what the function returns.
\<close>

partial_function (option) iterate_loop ::
  "'p corpus \<Rightarrow> real \<Rightarrow> real \<Rightarrow> 'p ranks \<Rightarrow> (py_error + 'p ranks) option" where
  "iterate_loop corpus chose_page_at_random damping_factor pagerank_dict =
     (case new_ranks_loop corpus chose_page_at_random damping_factor pagerank_dict
             (keys corpus) [] of
        Inl e \<Rightarrow> Some (Inl e)
      | Inr new_ranks \<Rightarrow>
          (case all_close new_ranks pagerank_dict (keys pagerank_dict) of
             Inl e \<Rightarrow> Some (Inl e)
           | Inr converged \<Rightarrow>
               if converged then Some (Inr pagerank_dict)
               else iterate_loop corpus chose_page_at_random damping_factor new_ranks))"

text \<open>
  The initial dict is a comprehension over the corpus, so \<open>1/len(corpus)\<close> is not
  evaluated for an empty corpus; \<open>(1 - damping_factor) / len(corpus)\<close> is, and raises
  \<open>ZeroDivisionError\<close> there. The result is the corpus after the call and what the
  call returns or raises.
\<close>

definition iterate_pagerank ::
  "'p corpus \<Rightarrow> real \<Rightarrow> ('p corpus \<times> (py_error + 'p ranks)) option" where
  "iterate_pagerank corpus damping_factor =
     (let pagerank_dict =
            foldl (\<lambda>d page. AList.update page (1 / real (length corpus)) d) [] (keys corpus);
          corpus' = normalize_sinks corpus
      in if length corpus' = 0 then Some (corpus', Inl ZeroDivisionError)
         else map_option (Pair corpus')
                (iterate_loop corpus' ((1 - damping_factor) / real (length corpus'))
                   damping_factor pagerank_dict))"

text \<open>
  Step 4 of the specified algorithm, as the specification words it: on convergence
  "stop and return \<open>newRank\<close>". The two definitions below differ from \<open>iterate_loop\<close>
  and \<open>iterate_pagerank\<close> in the returned mapping only.
\<close>

partial_function (option) iterate_loop_spec ::
  "'p corpus \<Rightarrow> real \<Rightarrow> real \<Rightarrow> 'p ranks \<Rightarrow> (py_error + 'p ranks) option" where
  "iterate_loop_spec corpus chose_page_at_random damping_factor pagerank_dict =
     (case new_ranks_loop corpus chose_page_at_random damping_factor pagerank_dict
             (keys corpus) [] of
        Inl e \<Rightarrow> Some (Inl e)
      | Inr new_ranks \<Rightarrow>
          (case all_close new_ranks pagerank_dict (keys pagerank_dict) of
             Inl e \<Rightarrow> Some (Inl e)
           | Inr converged \<Rightarrow>
               if converged then Some (Inr new_ranks)
               else iterate_loop_spec corpus chose_page_at_random damping_factor new_ranks))"

definition iterate_pagerank_spec ::
  "'p corpus \<Rightarrow> real \<Rightarrow> ('p corpus \<times> (py_error + 'p ranks)) option" where
  "iterate_pagerank_spec corpus damping_factor =
     (let pagerank_dict =
            foldl (\<lambda>d page. AList.update page (1 / real (length corpus)) d) [] (keys corpus);
          corpus' = normalize_sinks corpus
      in if length corpus' = 0 then Some (corpus', Inl ZeroDivisionError)
         else map_option (Pair corpus')
                (iterate_loop_spec corpus' ((1 - damping_factor) / real (length corpus'))
                   damping_factor pagerank_dict))"

subsection \<open>Closed forms used in the proofs\<close>

text \<open>
  The value that \<open>transition_model\<close> stores for the page \<open>q\<close> when the current page
  has the outbound set \<open>links\<close>.
\<close>

definition trans_prob :: "'p corpus \<Rightarrow> 'p fset \<Rightarrow> real \<Rightarrow> 'p \<Rightarrow> real" where
  "trans_prob corpus links d q =
     (if links = {||} then 1 / real (length corpus)
      else if q |\<in>| links then (1 - d) / real (length corpus) + d / real (fcard links)
      else (1 - d) / real (length corpus))"

text \<open>
  What the loop of \<open>iterate_pagerank\<close> over \<open>corpus.items()\<close> leaves under a key, for
  the list \<open>ks\<close> of all keys: the full page set for a sink, the old set otherwise.
\<close>

definition normalized :: "'p list \<Rightarrow> 'p \<times> 'p fset \<Rightarrow> 'p \<times> 'p fset" where
  "normalized ks = (\<lambda>(page, links). (page, if links = {||} then fset_of_list ks else links))"





section \<open>Dictionaries filled by a loop over distinct keys\<close>

lemma update_fresh_append:
  "k \<notin> fst ` set d \<Longrightarrow> AList.update k v d = d @ [(k, v)]"
  by (induction d) auto

lemma fill_loop_acc:
  "distinct (map fst acc @ ks) \<Longrightarrow>
   foldl (\<lambda>d k. AList.update k (f k) d) acc ks = acc @ map (\<lambda>k. (k, f k)) ks"
proof (induction ks arbitrary: acc)
  case Nil
  then show ?case by simp
next
  case (Cons k ks)
  from Cons.prems have fresh: "k \<notin> fst ` set acc" by auto
  from Cons.prems have "distinct (map fst (acc @ [(k, f k)]) @ ks)" by auto
  from Cons.IH [OF this] show ?case
    by (simp add: update_fresh_append [OF fresh])
qed

lemma fill_loop:
  "distinct ks \<Longrightarrow> foldl (\<lambda>d k. AList.update k (f k) d) [] ks = map (\<lambda>k. (k, f k)) ks"
  using fill_loop_acc [of "[]" ks f] by simp

lemma map_of_tabulate:
  "k \<in> set ks \<Longrightarrow> map_of (map (\<lambda>k. (k, f k)) ks) k = Some (f k)"
  by (induction ks) auto

lemma transition_model_closed_form:
  assumes "py_dict corpus" and "map_of corpus page = Some links"
  shows "transition_model corpus page d = Inr (map (\<lambda>q. (q, trans_prob corpus links d q)) (keys corpus))"
proof -
  have dk: "distinct (keys corpus)"
    using assms(1) by (simp add: py_dict_def keys_def)
  show ?thesis
  proof (cases "links = {||}")
    case True
    then show ?thesis
      using assms(2) fill_loop [OF dk, of "\<lambda>_. 1 / real (length corpus)"]
      by (simp add: transition_model_def trans_prob_def)
  next
    case False
    have eq: "(\<lambda>tm lp. if lp |\<in>| links
                 then AList.update lp ((1 - d) / real (length corpus) + d / real (fcard links)) tm
                 else AList.update lp ((1 - d) / real (length corpus)) tm)
            = (\<lambda>tm lp. AList.update lp (trans_prob corpus links d lp) tm)"
      using False by (auto simp: trans_prob_def fun_eq_iff)
    show ?thesis
      using assms(2) False fill_loop [OF dk, of "trans_prob corpus links d"]
      by (simp add: transition_model_def Let_def eq)
  qed
qed

section \<open>The transition model\<close>

lemma count_links:
  assumes "distinct ks" and "L |\<subseteq>| fset_of_list ks"
  shows "length (filter (\<lambda>q. q |\<in>| L) ks) = fcard L"
proof -
  have "distinct (filter (\<lambda>q. q |\<in>| L) ks)" using assms(1) by simp
  then have "length (filter (\<lambda>q. q |\<in>| L) ks) = card (set (filter (\<lambda>q. q |\<in>| L) ks))"
    by (rule distinct_card [symmetric])
  also have "set (filter (\<lambda>q. q |\<in>| L) ks) = fset L"
    using assms(2) by (auto simp: fset_of_list_elem)
  finally show ?thesis by (simp add: fcard.rep_eq)
qed

lemma sum_two_valued:
  "sum_list (map (\<lambda>q. if P q then a + b else a) ks)
     = a * real (length ks) + b * real (length (filter P ks))"
  by (induction ks) (auto simp: algebra_simps)

lemma trans_prob_sum:
  assumes "distinct (keys corpus)" and "links |\<subseteq>| fset_of_list (keys corpus)" and "corpus \<noteq> []"
  shows "sum_list (map (trans_prob corpus links d) (keys corpus)) = 1"
proof (cases "links = {||}")
  case True
  have len: "length (keys corpus) = length corpus" by (simp add: keys_def)
  have "sum_list (map (trans_prob corpus links d) (keys corpus))
          = real (length (keys corpus)) * (1 / real (length corpus))"
    using True by (simp add: trans_prob_def [abs_def] sum_list_triv)
  then show ?thesis using assms(3) by (simp add: len)
next
  case False
  then have nz: "fcard links \<noteq> 0" by simp
  have "trans_prob corpus links d = (\<lambda>q. if q |\<in>| links then (1 - d) / real (length corpus) + d / real (fcard links) else (1 - d) / real (length corpus))"
    using False by (auto simp: trans_prob_def fun_eq_iff)
  then have "sum_list (map (trans_prob corpus links d) (keys corpus))
     = (1 - d) / real (length corpus) * real (length (keys corpus)) + d / real (fcard links) * real (length (filter (\<lambda>q. q |\<in>| links) (keys corpus)))"
    by (simp only: sum_two_valued)
  also have "\<dots> = (1 - d) + d"
  proof -
    have len: "length (keys corpus) = length corpus" by (simp add: keys_def)
    show ?thesis using nz assms(3) by (simp add: count_links [OF assms(1,2)] len)
  qed
  finally show ?thesis by simp
qed

lemma py_dict_keys: "py_dict d \<Longrightarrow> distinct (keys d)"
  by (simp add: py_dict_def keys_def)

lemma key_lookup:
  "page \<in> set (keys corpus) \<Longrightarrow> \<exists>links. map_of corpus page = Some links"
  by (cases "map_of corpus page") (simp_all add: keys_def map_of_eq_None_iff)

lemma links_closedD:
  "links_closed corpus \<Longrightarrow> map_of corpus page = Some links
   \<Longrightarrow> links |\<subseteq>| fset_of_list (keys corpus)"
  by (auto simp: links_closed_def list_all_iff dest!: map_of_SomeD)

lemma values_tabulate: "dict_values (map (\<lambda>q. (q, f q)) ks) = map f ks"
  by (induction ks) (simp_all add: dict_values_def)


text \<open>
  Claim C3. For a page of the graph with outbound set \<open>links\<close>, \<open>transition_model\<close>
  returns a distribution that gives every page of the graph \<open>1/|graph|\<close> when \<open>links\<close>
  is empty, and otherwise \<open>(1 - damping)/|graph|\<close>, plus \<open>damping/|links|\<close> for the
  pages in \<open>links\<close>. The hypothesis \<open>map_of corpus page = Some links\<close> says that
  \<open>page\<close> is a key and names its outbound set; it makes the graph non-empty. The
  damping factor need not lie in \<open>[0, 1]\<close> for this.
\<close>

theorem transition_model_probabilities:
  assumes "py_dict corpus" and "map_of corpus page = Some links"
  shows "\<exists>tm. transition_model corpus page damping = Inr tm \<and>
           (\<forall>q \<in> set (keys corpus). map_of tm q = Some
              (if links = {||} then 1 / real (length corpus)
               else (1 - damping) / real (length corpus)
                    + (if q |\<in>| links then damping / real (fcard links) else 0)))"
proof -
  let ?tm = "map (\<lambda>q. (q, trans_prob corpus links damping q)) (keys corpus)"
  have "transition_model corpus page damping = Inr ?tm"
    by (rule transition_model_closed_form [OF assms])
  moreover have "map_of ?tm q = Some
              (if links = {||} then 1 / real (length corpus)
               else (1 - damping) / real (length corpus)
                    + (if q |\<in>| links then damping / real (fcard links) else 0))"
    if "q \<in> set (keys corpus)" for q
    using map_of_tabulate [OF that, of "trans_prob corpus links damping"]
    by (simp add: trans_prob_def)
  ultimately show ?thesis by blast
qed

theorem transition_model_probabilities_witness:
  "py_dict [(0::nat, {|1::nat|}), (1, {||})] \<and> map_of [(0::nat, {|1::nat|}), (1, {||})] 0 = Some {|1|} \<and>
   (\<exists>tm. transition_model [(0::nat, {|1::nat|}), (1, {||})] 0 (1/2) = Inr tm \<and>
      map_of tm 0 = Some (1/4) \<and> map_of tm 1 = Some (3/4))"
  using transition_model_probabilities [of "[(0::nat, {|1::nat|}), (1, {||})]" 0 "{|1|}" "1/2"]
  by (simp add: py_dict_def keys_def fcard_finsert_if fcard_fempty)

text \<open>
  Claim C4. For a graph whose link targets are all pages of the graph, a page of it and
  any damping factor, the values of the distribution that \<open>transition_model\<close> returns
  sum to 1, for a sink and for a non-sink page alike. The sum is that of exact
  arithmetic: this is the claim "up to floating-point rounding".
\<close>

theorem transition_model_sums_to_one:
  assumes "py_dict corpus" and "links_closed corpus" and "page \<in> set (keys corpus)"
  shows "\<exists>tm. transition_model corpus page damping = Inr tm \<and> sum_list (dict_values tm) = 1"
proof -
  from key_lookup [OF assms(3)] obtain links where l: "map_of corpus page = Some links" ..
  let ?tm = "map (\<lambda>q. (q, trans_prob corpus links damping q)) (keys corpus)"
  have ne: "corpus \<noteq> []" using l by auto
  have a: "transition_model corpus page damping = Inr ?tm"
    by (rule transition_model_closed_form [OF assms(1) l])
  have b: "sum_list (dict_values ?tm) = 1"
    using trans_prob_sum [OF py_dict_keys [OF assms(1)] links_closedD [OF assms(2) l] ne, of damping]
    by (simp only: values_tabulate)
  from a b show ?thesis by (intro exI [of _ ?tm] conjI)
qed

theorem transition_model_sums_to_one_witness:
  "py_dict [(0::nat, {|1::nat|}), (1, {||})] \<and> links_closed [(0::nat, {|1::nat|}), (1, {||})] \<and>
   (0::nat) \<in> set (keys [(0::nat, {|1::nat|}), (1, {||})]) \<and>
   (\<exists>tm. transition_model [(0::nat, {|1::nat|}), (1, {||})] 0 (17/20) = Inr tm \<and> sum_list (dict_values tm) = 1)"
  using transition_model_sums_to_one [of "[(0::nat, {|1::nat|}), (1, {||})]" 0 "17/20"]
  by (simp add: py_dict_def keys_def links_closed_def)




section \<open>The sampling estimator\<close>







lemma choice_member:
  "seq \<noteq> [] \<Longrightarrow> \<exists>p. choice seq r = Inr p \<and> p \<in> set seq"
  by (simp add: choice_def)







subsection \<open>Rounding a quotient to a double\<close>








lemma true_div_zero_count: "n \<noteq> 0 \<Longrightarrow> true_div 0 n = Inr 0"
  by (simp add: true_div_def double_round_def)

lemma true_div_by_zero: "true_div c 0 = Inl ZeroDivisionError"
  by (simp add: true_div_def)


subsection \<open>The division loop\<close>


lemma divide_counts_zeros:
  "n \<noteq> 0 \<Longrightarrow> divide_counts (map (\<lambda>k. (k, 0)) ks) n = Inr (map (\<lambda>k. (k, 0)) ks)"
  by (induction ks) (simp_all add: true_div_zero_count)

lemma divide_counts_zero:
  "counts \<noteq> [] \<Longrightarrow> divide_counts counts 0 = Inl ZeroDivisionError"
  by (cases counts) (auto simp: true_div_by_zero)




lemma initial_counts:
  "py_dict corpus \<Longrightarrow>
   foldl (\<lambda>d page. AList.update page (0::int) d) [] (keys corpus) = map (\<lambda>k. (k, 0)) (keys corpus)"
  using fill_loop [OF py_dict_keys, of corpus "\<lambda>_. 0::int"] by simp


lemma update_nonempty: "AList.update k v d \<noteq> []"
  by (cases d) auto

lemma fill_nonempty:
  "ks \<noteq> [] \<Longrightarrow> foldl (\<lambda>d k. AList.update k (f k) d) acc ks \<noteq> []"
  by (induction ks rule: rev_induct) (simp_all add: update_nonempty)




text \<open>
  Claim C5 says that \<open>sample_pagerank\<close> never returns a mapping for \<open>n \<le> 0\<close>. For a
  negative \<open>n\<close> the loop over \<open>range(n)\<close> does not run and every count, still 0, is
  divided by \<open>n\<close> without error: on the graph \<open>{0: {}}\<close> with \<open>n = -1\<close> the call returns
  \<open>{0: 0 / -1}\<close>, the mapping of page 0 to zero.
\<close>

theorem sample_pagerank_negative_counterexample:
  "sample_pagerank [(0::nat, {||}::nat fset)] (17/20) (- 1) \<lparr>rand_index = 0, rand_unit = (\<lambda>i. 0)\<rparr>
     = Inr [(0, 0)]"
  by (simp add: sample_pagerank_def choice_def keys_def true_div_def double_round_def)

text \<open>
  Claim C5, amended. An empty graph makes both estimators raise: \<open>sample_pagerank\<close>
  raises \<open>IndexError\<close> for every \<open>n\<close> and \<open>iterate_pagerank\<close> raises
  \<open>ZeroDivisionError\<close>, leaving the graph empty. On a non-empty graph
  \<open>sample_pagerank\<close> with \<open>n = 0\<close> raises \<open>ZeroDivisionError\<close>. Nothing is returned
  beside the error. With \<open>n < 0\<close> on a non-empty graph \<open>sample_pagerank\<close> makes no draw
  and returns the mapping that gives every page 0.
\<close>

theorem invalid_input_raises:
  "sample_pagerank [] damping n rng = Inl IndexError \<and>
   iterate_pagerank [] damping = Some ([], Inl ZeroDivisionError) \<and>
   (corpus \<noteq> [] \<longrightarrow> sample_pagerank corpus damping 0 rng = Inl ZeroDivisionError) \<and>
   (py_dict corpus \<and> corpus \<noteq> [] \<and> n < 0 \<longrightarrow>
      sample_pagerank corpus damping n rng = Inr (map (\<lambda>page. (page, 0)) (keys corpus)))"
proof (intro conjI impI)
  show "sample_pagerank [] damping n rng = Inl IndexError"
    by (simp add: sample_pagerank_def choice_def keys_def)
  show "iterate_pagerank [] damping = Some ([], Inl ZeroDivisionError)"
    by (simp add: iterate_pagerank_def normalize_sinks_def keys_def)
next
  assume ne: "corpus \<noteq> []"
  then have kne: "keys corpus \<noteq> []" by (simp add: keys_def)
  from choice_member [OF kne, of "rand_index rng"]
  obtain p where p: "choice (keys corpus) (rand_index rng) = Inr p" by auto
  have "foldl (\<lambda>d page. AList.update page (0::int) d) [] (keys corpus) \<noteq> []"
    by (rule fill_nonempty [OF kne])
  then show "sample_pagerank corpus damping 0 rng = Inl ZeroDivisionError"
    using p by (simp add: sample_pagerank_def divide_counts_zero)
next
  assume a: "py_dict corpus \<and> corpus \<noteq> [] \<and> n < 0"
  then have kne: "keys corpus \<noteq> []" by (simp add: keys_def)
  from choice_member [OF kne, of "rand_index rng"]
  obtain p where p: "choice (keys corpus) (rand_index rng) = Inr p" by auto
  have n0: "n \<noteq> 0" and nn: "nat n = 0" using a by simp_all
  show "sample_pagerank corpus damping n rng = Inr (map (\<lambda>page. (page, 0)) (keys corpus))"
    using p a nn by (simp add: sample_pagerank_def initial_counts divide_counts_zeros [OF n0])
qed

theorem invalid_input_raises_witness:
  "[(0::nat, {||}::nat fset)] \<noteq> [] \<and> py_dict [(0::nat, {||}::nat fset)] \<and> (- 1::int) < 0 \<and>
   sample_pagerank ([]::nat corpus) (17/20) (- 1) \<lparr>rand_index = 0, rand_unit = (\<lambda>i. 0)\<rparr>
     = Inl IndexError \<and>
   iterate_pagerank ([]::nat corpus) (17/20) = Some ([], Inl ZeroDivisionError) \<and>
   sample_pagerank [(0::nat, {||}::nat fset)] (17/20) 0 \<lparr>rand_index = 0, rand_unit = (\<lambda>i. 0)\<rparr>
     = Inl ZeroDivisionError \<and>
   sample_pagerank [(0::nat, {||}::nat fset)] (17/20) (- 1) \<lparr>rand_index = 0, rand_unit = (\<lambda>i. 0)\<rparr>
     = Inr [(0, 0)]"
  using invalid_input_raises [of "17/20" "- 1" "\<lparr>rand_index = 0, rand_unit = (\<lambda>i. 0)\<rparr>"
      "[(0::nat, {||}::nat fset)]"]
  by (simp add: py_dict_def keys_def)

section \<open>The iterative estimator\<close>

lemma update_at:
  "p \<notin> fst ` set xs \<Longrightarrow> AList.update p v (xs @ (p, w) # ys) = xs @ (p, v) # ys"
  by (induction xs) auto

lemma fst_normalized: "fst (normalized ks x) = fst x"
  by (cases x) (simp add: normalized_def)

lemma keys_normalized: "keys (map (normalized ks) xs) = keys xs"
  by (simp add: keys_def fst_normalized comp_def)

lemma normalize_loop:
  "distinct (map fst (pre @ items)) \<Longrightarrow>
   foldl (\<lambda>c (page, links).
            if links = {||} then AList.update page (fset_of_list (keys c)) c else c)
         (map (normalized (keys (pre @ items))) pre @ items) items
     = map (normalized (keys (pre @ items))) (pre @ items)"
proof (induction items arbitrary: pre)
  case Nil
  then show ?case by simp
next
  case (Cons x items)
  obtain page links where x: "x = (page, links)" by (cases x)
  let ?step = "\<lambda>c (page, links).
            if links = {||} then AList.update page (fset_of_list (keys c)) c else c"
  let ?K = "keys (pre @ (page, links) # items)"
  let ?acc = "map (normalized ?K) pre @ (page, links) # items"
  have K: "keys ((pre @ [(page, links)]) @ items) = ?K" by simp
  have d: "distinct (map fst ((pre @ [(page, links)]) @ items))" using Cons.prems x by simp
  have fresh: "page \<notin> fst ` set (map (normalized ?K) pre)"
    using Cons.prems x by (auto simp: fst_normalized image_image)
  have kacc: "keys ?acc = ?K"
    using keys_normalized [of ?K pre] by (simp add: keys_def)
  have step: "?step ?acc (page, links) = map (normalized ?K) (pre @ [(page, links)]) @ items"
  proof (cases "links = {||}")
    case True
    have "?step ?acc (page, links) = AList.update page (fset_of_list (keys ?acc)) ?acc"
      using True by simp
    also have "\<dots> = AList.update page (fset_of_list ?K) ?acc"
      by (simp only: kacc)
    also have "\<dots> = map (normalized ?K) pre @ (page, fset_of_list ?K) # items"
      by (rule update_at [OF fresh])
    also have "(page, fset_of_list ?K) = normalized ?K (page, links)"
      using True by (simp add: normalized_def)
    finally show ?thesis by simp
  next
    case False
    then have "normalized ?K (page, links) = (page, links)" by (simp add: normalized_def)
    moreover have "?step ?acc (page, links) = ?acc" using False by simp
    ultimately show ?thesis by simp
  qed
  have "foldl ?step ?acc ((page, links) # items) = foldl ?step (?step ?acc (page, links)) items"
    by (rule foldl_Cons)
  also have "\<dots> = foldl ?step (map (normalized ?K) (pre @ [(page, links)]) @ items) items"
    by (simp only: step)
  also have "\<dots> = map (normalized ?K) ((pre @ [(page, links)]) @ items)"
    using Cons.IH [OF d] by (simp only: K)
  also have "\<dots> = map (normalized ?K) (pre @ (page, links) # items)" by simp
  finally show ?case unfolding x .
qed

lemma normalize_sinks_closed_form:
  "py_dict corpus \<Longrightarrow> normalize_sinks corpus = map (normalized (keys corpus)) corpus"
  using normalize_loop [of "[]" corpus] by (simp add: py_dict_def normalize_sinks_def)

lemma keys_normalize_sinks: "py_dict corpus \<Longrightarrow> keys (normalize_sinks corpus) = keys corpus"
  by (simp add: normalize_sinks_closed_form keys_normalized)

lemma py_dict_normalize_sinks: "py_dict corpus \<Longrightarrow> py_dict (normalize_sinks corpus)"
  using keys_normalize_sinks [of corpus] by (simp add: py_dict_def keys_def)

lemma length_normalize_sinks: "py_dict corpus \<Longrightarrow> length (normalize_sinks corpus) = length corpus"
  by (simp add: normalize_sinks_closed_form)

lemma normalized_idem:
  "ks \<noteq> [] \<Longrightarrow> normalized ks (normalized ks x) = normalized ks x"
  by (cases x) (auto simp: normalized_def)

lemma normalize_sinks_idem:
  assumes "py_dict corpus"
  shows "normalize_sinks (normalize_sinks corpus) = normalize_sinks corpus"
proof (cases "corpus = []")
  case True
  then show ?thesis by (simp add: normalize_sinks_def)
next
  case False
  then have kne: "keys corpus \<noteq> []" by (simp add: keys_def)
  have "normalize_sinks (normalize_sinks corpus)
          = map (normalized (keys (normalize_sinks corpus))) (normalize_sinks corpus)"
    by (rule normalize_sinks_closed_form [OF py_dict_normalize_sinks [OF assms]])
  also have "\<dots> = map (normalized (keys corpus)) (map (normalized (keys corpus)) corpus)"
    by (simp only: normalize_sinks_closed_form [OF assms] keys_normalized)
  also have "\<dots> = map (normalized (keys corpus)) corpus"
    by (simp add: normalized_idem [OF kne])
  also have "\<dots> = normalize_sinks corpus"
    by (simp only: normalize_sinks_closed_form [OF assms])
  finally show ?thesis .
qed








section \<open>The pass is a contraction\<close>
















section \<open>What \<open>iterate_pagerank\<close> returns\<close>




lemma iterate_pagerank_corpus:
  assumes "py_dict corpus" and "iterate_pagerank corpus d = Some (corpus', result)"
  shows "corpus' = normalize_sinks corpus"
  using assms(2) by (auto simp: iterate_pagerank_def Let_def split: if_splits)





text \<open>
  Claim C2 says that the call leaves the caller's graph as it was. The loop over
  \<open>corpus.items()\<close> stores into the dict that was passed in: after the call on the graph
  \<open>{0: {}}\<close> the caller's graph is \<open>{0: {0}}\<close>.
\<close>

theorem caller_graph_counterexample:
  "iterate_pagerank [(0::nat, {||}::nat fset)] (17/20) = Some ([(0, {|0|})], Inr [(0, 1)])"
  apply (simp add: iterate_pagerank_def normalize_sinks_def keys_def)
  apply (subst iterate_loop.simps)
  apply (simp add: keys_def fcard_finsert_if fcard_fempty)
  done

text \<open>
  Claim C2, amended. When \<open>iterate_pagerank\<close> returns or raises, the caller's graph has
  the same pages in the same order; the outbound set of every page that had links is
  what it was, and the outbound set of every sink page is the set of all pages of the
  graph.
\<close>

theorem caller_graph_after_call:
  assumes "py_dict corpus" and "iterate_pagerank corpus damping = Some (corpus', result)"
  shows "corpus' = map (\<lambda>(page, links).
                     (page, if links = {||} then fset_of_list (keys corpus) else links)) corpus"
proof -
  have "corpus' = normalize_sinks corpus"
    by (rule iterate_pagerank_corpus [OF assms])
  also have "\<dots> = map (normalized (keys corpus)) corpus"
    by (rule normalize_sinks_closed_form [OF assms(1)])
  finally show ?thesis by (simp add: normalized_def)
qed

theorem caller_graph_after_call_witness:
  "py_dict [(0::nat, {||}::nat fset)] \<and>
   iterate_pagerank [(0::nat, {||}::nat fset)] (17/20) = Some ([(0, {|0|})], Inr [(0, 1)]) \<and>
   [(0::nat, {|0::nat|})] = map (\<lambda>(page, links).
        (page, if links = {||} then fset_of_list (keys [(0::nat, {||}::nat fset)]) else links))
        [(0, {||})]"
proof -
  have p: "py_dict [(0::nat, {||}::nat fset)]" by (simp add: py_dict_def)
  have r: "iterate_pagerank [(0::nat, {||}::nat fset)] (17/20) = Some ([(0, {|0|})], Inr [(0, 1)])"
    apply (simp add: iterate_pagerank_def normalize_sinks_def keys_def)
    apply (subst iterate_loop.simps)
    apply (simp add: keys_def fcard_finsert_if fcard_fempty)
    done
  from caller_graph_after_call [OF p r] p r show ?thesis by (intro conjI)
qed

text \<open>
  Claim C9. \<open>iterate_pagerank\<close> is a function of the graph and the damping factor alone:
  it takes no random source, unlike \<open>sample_pagerank\<close>. A call changes the graph it was
  given, so the second of two calls on the same graph object runs on the graph the
  first call left; it returns (or raises) the same as the first, and leaves the graph
  as the first call left it.
\<close>

theorem iterate_pagerank_deterministic:
  assumes "py_dict corpus" and "iterate_pagerank corpus damping = Some (corpus', result)"
  shows "iterate_pagerank corpus' damping = Some (corpus', result)"
proof -
  have c: "corpus' = normalize_sinks corpus"
    by (rule iterate_pagerank_corpus [OF assms])
  have "iterate_pagerank (normalize_sinks corpus) damping = iterate_pagerank corpus damping"
    by (simp add: iterate_pagerank_def Let_def normalize_sinks_idem [OF assms(1)]
        length_normalize_sinks [OF assms(1)] keys_normalize_sinks [OF assms(1)])
  then show ?thesis using assms(2) c by simp
qed

theorem iterate_pagerank_deterministic_witness:
  "py_dict [(0::nat, {||}::nat fset)] \<and>
   iterate_pagerank [(0::nat, {||}::nat fset)] (17/20) = Some ([(0, {|0|})], Inr [(0, 1)]) \<and>
   iterate_pagerank [(0::nat, {|0::nat|})] (17/20) = Some ([(0, {|0|})], Inr [(0, 1)])"
proof -
  have p: "py_dict [(0::nat, {||}::nat fset)]" by (simp add: py_dict_def)
  have r: "iterate_pagerank [(0::nat, {||}::nat fset)] (17/20) = Some ([(0, {|0|})], Inr [(0, 1)])"
    apply (simp add: iterate_pagerank_def normalize_sinks_def keys_def)
    apply (subst iterate_loop.simps)
    apply (simp add: keys_def fcard_finsert_if fcard_fempty)
    done
  from iterate_pagerank_deterministic [OF p r] p r show ?thesis by (intro conjI)
qed

section \<open>Which mapping the loop returns\<close>

lemma iterate_loop_returns_previous:
  assumes "iterate_loop corpus c d pagerank_dict = Some y"
  shows "\<forall>ranks. y = Inr ranks \<longrightarrow>
     (\<exists>new_ranks. new_ranks_loop corpus c d ranks (keys corpus) [] = Inr new_ranks \<and>
        all_close new_ranks ranks (keys ranks) = Inr True \<and>
        iterate_loop_spec corpus c d pagerank_dict = Some (Inr new_ranks))"
proof (rule iterate_loop.raw_induct [where P = "\<lambda>corpus c d pagerank_dict y.
     \<forall>ranks. y = Inr ranks \<longrightarrow>
     (\<exists>new_ranks. new_ranks_loop corpus c d ranks (keys corpus) [] = Inr new_ranks \<and>
        all_close new_ranks ranks (keys ranks) = Inr True \<and>
        iterate_loop_spec corpus c d pagerank_dict = Some (Inr new_ranks))", OF _ assms])
  fix loop :: "'a corpus \<Rightarrow> real \<Rightarrow> real \<Rightarrow> 'a ranks \<Rightarrow> (py_error + 'a ranks) option"
  fix corpus c d pagerank_dict y
  assume IH: "\<And>corpus c d pagerank_dict y. loop corpus c d pagerank_dict = Some y \<Longrightarrow>
     \<forall>ranks. y = Inr ranks \<longrightarrow>
     (\<exists>new_ranks. new_ranks_loop corpus c d ranks (keys corpus) [] = Inr new_ranks \<and>
        all_close new_ranks ranks (keys ranks) = Inr True \<and>
        iterate_loop_spec corpus c d pagerank_dict = Some (Inr new_ranks))"
  assume body: "(case new_ranks_loop corpus c d pagerank_dict (keys corpus) [] of
        Inl e \<Rightarrow> Some (Inl e)
      | Inr new_ranks \<Rightarrow>
          (case all_close new_ranks pagerank_dict (keys pagerank_dict) of
             Inl e \<Rightarrow> Some (Inl e)
           | Inr converged \<Rightarrow>
               if converged then Some (Inr pagerank_dict)
               else loop corpus c d new_ranks)) = Some y"
  show "\<forall>ranks. y = Inr ranks \<longrightarrow>
     (\<exists>new_ranks. new_ranks_loop corpus c d ranks (keys corpus) [] = Inr new_ranks \<and>
        all_close new_ranks ranks (keys ranks) = Inr True \<and>
        iterate_loop_spec corpus c d pagerank_dict = Some (Inr new_ranks))"
  proof (intro allI impI)
    fix ranks
    assume y: "y = Inr ranks"
    show "\<exists>new_ranks. new_ranks_loop corpus c d ranks (keys corpus) [] = Inr new_ranks \<and>
        all_close new_ranks ranks (keys ranks) = Inr True \<and>
        iterate_loop_spec corpus c d pagerank_dict = Some (Inr new_ranks)"
    proof (cases "new_ranks_loop corpus c d pagerank_dict (keys corpus) []")
      case (Inl e)
      with body y show ?thesis by simp
    next
      case new: (Inr new_ranks)
      show ?thesis
      proof (cases "all_close new_ranks pagerank_dict (keys pagerank_dict)")
        case (Inl e)
        with body new y show ?thesis by simp
      next
        case conv: (Inr converged)
        show ?thesis
        proof (cases converged)
          case True
          with body new conv y have r: "ranks = pagerank_dict" by simp
          have "iterate_loop_spec corpus c d pagerank_dict = Some (Inr new_ranks)"
            using new conv True by (subst iterate_loop_spec.simps) simp
          with new conv True r show ?thesis by (intro exI [of _ new_ranks]) simp
        next
          case False
          with body new conv have "loop corpus c d new_ranks = Some y" by simp
          from IH [OF this, THEN spec, THEN mp, OF y] obtain nr where
            a: "new_ranks_loop corpus c d ranks (keys corpus) [] = Inr nr"
            and b: "all_close nr ranks (keys ranks) = Inr True"
            and s: "iterate_loop_spec corpus c d new_ranks = Some (Inr nr)"
            by (elim exE conjE)
          have "iterate_loop_spec corpus c d pagerank_dict = Some (Inr nr)"
            using new conv False s by (subst iterate_loop_spec.simps) simp
          with a b show ?thesis by (intro exI [of _ nr]) simp
        qed
      qed
    qed
  qed
qed

text \<open>
  Claim C1 says that on convergence the mapping computed in the final pass is returned.
  The loop breaks before \<open>pagerank_dict = new_ranks\<close> and returns \<open>pagerank_dict\<close>, the
  mapping the final pass started from. On the graph \<open>{0: {1}, 1: {}}\<close> with damping
  \<open>0.001\<close> the first pass computes \<open>{0: 0.49975, 1: 0.50025}\<close> from the initial
  \<open>{0: 0.5, 1: 0.5}\<close>; the test succeeds, and the initial mapping is returned.
\<close>

theorem returned_mapping_counterexample:
  "iterate_pagerank [(0::nat, {|1::nat|}), (1, {||})] (1/1000)
     = Some ([(0, {|1|}), (1, {|0, 1|})], Inr [(0, 1/2), (1, 1/2)]) \<and>
   iterate_pagerank_spec [(0::nat, {|1::nat|}), (1, {||})] (1/1000)
     = Some ([(0, {|1|}), (1, {|0, 1|})], Inr [(0, 1999/4000), (1, 2001/4000)])"
proof
  show "iterate_pagerank [(0::nat, {|1::nat|}), (1, {||})] (1/1000)
     = Some ([(0, {|1|}), (1, {|0, 1|})], Inr [(0, 1/2), (1, 1/2)])"
    apply (simp add: iterate_pagerank_def normalize_sinks_def keys_def)
    apply (subst iterate_loop.simps)
    apply (simp add: keys_def fcard_finsert_if fcard_fempty)
    done
  show "iterate_pagerank_spec [(0::nat, {|1::nat|}), (1, {||})] (1/1000)
     = Some ([(0, {|1|}), (1, {|0, 1|})], Inr [(0, 1999/4000), (1, 2001/4000)])"
    apply (simp add: iterate_pagerank_spec_def normalize_sinks_def keys_def)
    apply (subst iterate_loop_spec.simps)
    apply (simp add: keys_def fcard_finsert_if fcard_fempty)
    done
qed

text \<open>
  Claim C1, amended. When \<open>iterate_pagerank\<close> returns a mapping, that mapping is the one
  the final pass started from (the initial uniform mapping when the first pass already
  converges): the final pass computes \<open>new_ranks\<close> from it without error, \<open>new_ranks\<close>
  differs from it by less than \<open>0.001\<close> on every page, and \<open>new_ranks\<close> is what the
  algorithm as the specification words it returns.
\<close>

theorem returned_mapping_is_previous:
  assumes "iterate_pagerank corpus damping = Some (corpus', Inr ranks)"
  shows "\<exists>new_ranks.
           new_ranks_loop corpus' ((1 - damping) / real (length corpus')) damping ranks
             (keys corpus') [] = Inr new_ranks \<and>
           all_close new_ranks ranks (keys ranks) = Inr True \<and>
           iterate_pagerank_spec corpus damping = Some (corpus', Inr new_ranks)"
proof -
  let ?g = "normalize_sinks corpus"
  let ?c = "(1 - damping) / real (length ?g)"
  let ?init = "foldl (\<lambda>d page. AList.update page (1 / real (length corpus)) d) [] (keys corpus)"
  from assms have ne: "length ?g \<noteq> 0"
    by (auto simp: iterate_pagerank_def Let_def split: if_splits)
  from assms ne have g: "corpus' = ?g" and l: "iterate_loop ?g ?c damping ?init = Some (Inr ranks)"
    by (auto simp: iterate_pagerank_def Let_def)
  from iterate_loop_returns_previous [OF l, THEN spec, THEN mp, OF refl] obtain new_ranks where
    a: "new_ranks_loop ?g ?c damping ranks (keys ?g) [] = Inr new_ranks"
    and b: "all_close new_ranks ranks (keys ranks) = Inr True"
    and s: "iterate_loop_spec ?g ?c damping ?init = Some (Inr new_ranks)"
    by (elim exE conjE)
  have "iterate_pagerank_spec corpus damping = Some (?g, Inr new_ranks)"
    using ne s by (simp add: iterate_pagerank_spec_def Let_def)
  with a b show ?thesis unfolding g by (intro exI [of _ new_ranks]) simp
qed

theorem returned_mapping_is_previous_witness:
  "iterate_pagerank [(0::nat, {|1::nat|}), (1, {||})] (1/1000)
     = Some ([(0, {|1|}), (1, {|0, 1|})], Inr [(0, 1/2), (1, 1/2)]) \<and>
   (\<exists>new_ranks.
      new_ranks_loop [(0::nat, {|1::nat|}), (1, {|0, 1|})]
        ((1 - 1/1000) / real (length [(0::nat, {|1::nat|}), (1, {|0, 1|})])) (1/1000)
        [(0, 1/2), (1, 1/2)] (keys [(0::nat, {|1::nat|}), (1, {|0, 1|})]) [] = Inr new_ranks \<and>
      all_close new_ranks [(0, 1/2), (1, 1/2)] (keys [(0::nat, 1/2::real), (1, 1/2)]) = Inr True \<and>
      iterate_pagerank_spec [(0::nat, {|1::nat|}), (1, {||})] (1/1000)
        = Some ([(0, {|1|}), (1, {|0, 1|})], Inr new_ranks))"
proof -
  have r: "iterate_pagerank [(0::nat, {|1::nat|}), (1, {||})] (1/1000)
     = Some ([(0, {|1|}), (1, {|0, 1|})], Inr [(0, 1/2), (1, 1/2)])"
    apply (simp add: iterate_pagerank_def normalize_sinks_def keys_def)
    apply (subst iterate_loop.simps)
    apply (simp add: keys_def fcard_finsert_if fcard_fempty)
    done
  from returned_mapping_is_previous [OF r] r show ?thesis by (intro conjI)
qed

end
